theory Spec2Isabelle
  imports Complex_Main
begin

unbundle bit_operations_syntax

section \<open>Errors and route entries\<close>

text \<open>
  The exceptions the modelled code can meet. Every \<open>try\<close>/\<open>except:\<close> of
  \<open>hello.py\<close> is a bare \<open>except\<close>, so the model never distinguishes them
  inside a handler; they are kept apart only to name what was raised.
\<close>

datatype error = ValueError | ZeroDivisionError | IndexError | TypeError | DNSException | PyMongoError

text \<open>
  One document of the \<open>bgp\<close> collection, with the fields of the data model.
  \<open>None\<close> in \<open>origin_as\<close> and \<open>next_hop_asn\<close> is the stored null;
  \<open>None\<close> in \<open>as_path\<close> is a missing or null path, on which
  \<open>len(set(prefix['as_path']))\<close> raises.
\<close>

record route =
  prefix :: string
  ip_version :: int
  origin_as :: "int option"
  next_hop_asn :: "int option"
  nexthop :: string
  as_path :: "int list option"
  communities :: "string list"
  med :: int
  local_pref :: int
  timestamp :: int

section \<open>The part of the \<open>ipaddress\<close> module that \<open>find_network\<close> uses\<close>

text \<open>
  \<open>ipaddress.ip_address\<close> yields an \<open>IPv4Address\<close> or an \<open>IPv6Address\<close>,
  each holding the address as an integer.
\<close>

datatype ip_addr = IPv4Address nat | IPv6Address nat

fun version :: "ip_addr \<Rightarrow> nat" where
  "version (IPv4Address _) = 4"
| "version (IPv6Address _) = 6"

datatype ip_net = IPv4Network nat nat | IPv6Network nat nat

text \<open>\<open>ipaddress.ip_network(address)\<close>: the host network, /32 or /128.\<close>

fun ip_network :: "ip_addr \<Rightarrow> ip_net" where
  "ip_network (IPv4Address a) = IPv4Network a 32"
| "ip_network (IPv6Address a) = IPv6Network a 128"

fun prefixlen :: "ip_net \<Rightarrow> nat" where
  "prefixlen (IPv4Network _ p) = p"
| "prefixlen (IPv6Network _ p) = p"

fun network_address :: "ip_net \<Rightarrow> nat" where
  "network_address (IPv4Network a _) = a"
| "network_address (IPv6Network a _) = a"

text \<open>\<open>int(self.netmask)\<close> of a host network: all ones.\<close>

fun netmask_int :: "ip_net \<Rightarrow> nat" where
  "netmask_int (IPv4Network _ p) = push_bit (32 - p) (2 ^ p - 1)"
| "netmask_int (IPv6Network _ p) = push_bit (128 - p) (2 ^ p - 1)"

fun same_class :: "ip_net \<Rightarrow> nat \<Rightarrow> nat \<Rightarrow> ip_net" where
  "same_class (IPv4Network _ _) a p = IPv4Network a p"
| "same_class (IPv6Network _ _) a p = IPv6Network a p"

text \<open>
  \<open>supernet(new_prefix=k)\<close>, with its two \<open>ValueError\<close>s: a new prefix longer
  than the current one, and a negative new prefix length.
\<close>

definition supernet :: "ip_net \<Rightarrow> int \<Rightarrow> error + ip_net" where
  "supernet net new_prefix =
     (if prefixlen net = 0 then Inr net
      else if new_prefix > int (prefixlen net) then Inl ValueError
      else let prefixlen_diff = int (prefixlen net) - new_prefix;
               new_prefixlen = int (prefixlen net) - prefixlen_diff
           in if new_prefixlen < 0 then Inl ValueError
              else Inr (same_class net
                         (network_address net AND push_bit (nat prefixlen_diff) (netmask_int net))
                         (nat new_prefixlen)))"

subsection \<open>Text form of a network\<close>

fun str_nat :: "nat \<Rightarrow> string" where
  "str_nat n = (if n < 10 then [''0123456789'' ! n]
                else str_nat (n div 10) @ [''0123456789'' ! (n mod 10)])"

fun hex_nat :: "nat \<Rightarrow> string" where
  "hex_nat n = (if n < 16 then [''0123456789abcdef'' ! n]
                else hex_nat (n div 16) @ [''0123456789abcdef'' ! (n mod 16)])"

fun join :: "string \<Rightarrow> string list \<Rightarrow> string" where
  "join sep [] = []"
| "join sep [x] = x"
| "join sep (x # y # ys) = x @ sep @ join sep (y # ys)"

definition octets :: "nat \<Rightarrow> nat list" where
  "octets a = map (\<lambda>i. (a div 256 ^ i) mod 256) [3, 2, 1, 0]"

definition hextets :: "nat \<Rightarrow> string list" where
  "hextets a = map (\<lambda>i. hex_nat ((a div 65536 ^ i) mod 65536)) [7, 6, 5, 4, 3, 2, 1, 0]"

text \<open>
  The scan of \<open>_compress_hextets\<close> for the longest run of \<open>0\<close> hextets. The state is
  (best start, best length, current start, current length); a start of \<open>-1\<close> means
  that no run is open. A later run replaces the best one only when strictly longer.
\<close>

fun zero_run_scan :: "string list \<Rightarrow> int \<Rightarrow> int \<times> int \<times> int \<times> int \<Rightarrow> int \<times> int" where
  "zero_run_scan [] index (bs, bl, cs, cl) = (bs, bl)"
| "zero_run_scan (h # hs) index (bs, bl, cs, cl) =
     (if h = ''0'' then
        (let cl' = cl + 1;
             cs' = (if cs = - 1 then index else cs)
         in if cl' > bl then zero_run_scan hs (index + 1) (cs', cl', cs', cl')
            else zero_run_scan hs (index + 1) (bs, bl, cs', cl'))
      else zero_run_scan hs (index + 1) (bs, bl, - 1, 0))"

definition compress_hextets :: "string list \<Rightarrow> string list" where
  "compress_hextets hs =
     (case zero_run_scan hs 0 (- 1, 0, - 1, 0) of (bs, bl) \<Rightarrow>
        if bl > 1 then
          (let be = bs + bl;
               hs1 = (if be = int (length hs) then hs @ [''''] else hs);
               hs2 = take (nat bs) hs1 @ [''''] @ drop (nat be) hs1
           in if bs = 0 then '''' # hs2 else hs2)
        else hs)"

fun str_network :: "ip_net \<Rightarrow> string" where
  "str_network (IPv4Network a p) = join ''.'' (map str_nat (octets a)) @ ''/'' @ str_nat p"
| "str_network (IPv6Network a p) = join '':'' (compress_hextets (hextets a)) @ ''/'' @ str_nat p"

declare str_nat.simps [simp del]
declare hex_nat.simps [simp del]
declare str_network.simps [simp del]

section \<open>\<open>find_network\<close>\<close>

text \<open>
  The two collaborators are parameters: \<open>ip_address\<close> is the parser
  \<open>ipaddress.ip_address\<close> (\<open>Inl\<close> when it raises), and \<open>find_one\<close> is
  \<open>db_connect().bgp.find_one({'prefix': network})\<close> (\<open>Inl\<close> when connecting or
  querying raises, \<open>Inr None\<close> when no document has that prefix). The whole body
  is inside \<open>try\<close> with a bare \<open>except\<close> returning \<open>None\<close>, so every \<open>Inl\<close>
  becomes \<open>None\<close>. The final \<open>else\<close> of the source (a version other than 4 or 6)
  is kept.
\<close>

function find_network ::
  "(string \<Rightarrow> error + ip_addr) \<Rightarrow> (string \<Rightarrow> error + 'r option) \<Rightarrow> string \<Rightarrow> int \<Rightarrow> 'r option"
where
  "find_network ip_address find_one ip netmask =
     (case ip_address ip of
        Inl _ \<Rightarrow> None
      | Inr a \<Rightarrow>
          if version a = 4 then
            (case supernet (ip_network a) netmask of
               Inl _ \<Rightarrow> None
             | Inr network \<Rightarrow>
                 (case find_one (str_network network) of
                    Inl _ \<Rightarrow> None
                  | Inr (Some result) \<Rightarrow> Some result
                  | Inr None \<Rightarrow>
                      if netmask = 0 then None
                      else find_network ip_address find_one ip (netmask - 1)))
          else if version a = 6 then
            (case supernet (ip_network a) (netmask + 32) of
               Inl _ \<Rightarrow> None
             | Inr network \<Rightarrow>
                 (case find_one (str_network network) of
                    Inl _ \<Rightarrow> None
                  | Inr (Some result) \<Rightarrow> Some result
                  | Inr None \<Rightarrow>
                      if netmask = 0 then None
                      else find_network ip_address find_one ip (netmask - 1)))
          else None)"
  by pat_completeness auto

termination find_network
proof (relation "measure (\<lambda>(ip_address, find_one, ip, netmask). nat (netmask + 33))")
  show "wf (measure (\<lambda>(ip_address, find_one, ip, netmask). nat (netmask + 33)))"
    by simp
next
  fix ip_address :: "string \<Rightarrow> error + ip_addr" and find_one :: "string \<Rightarrow> error + 'r option"
    and ip :: string and netmask :: int and a network x
  assume "supernet (ip_network a) netmask = Inr network"
  then have "0 \<le> netmask" by (cases a) (auto simp: supernet_def Let_def split: if_splits)
  then show "((ip_address, find_one, ip, netmask - 1), (ip_address, find_one, ip, netmask))
      \<in> measure (\<lambda>(ip_address, find_one, ip, netmask). nat (netmask + 33))"
    by simp
next
  fix ip_address :: "string \<Rightarrow> error + ip_addr" and find_one :: "string \<Rightarrow> error + 'r option"
    and ip :: string and netmask :: int and a network x
  assume "supernet (ip_network a) (netmask + 32) = Inr network"
  then have "0 \<le> netmask + 32" by (cases a) (auto simp: supernet_def Let_def split: if_splits)
  then show "((ip_address, find_one, ip, netmask - 1), (ip_address, find_one, ip, netmask))
      \<in> measure (\<lambda>(ip_address, find_one, ip, netmask). nat (netmask + 33))"
    by simp
qed

text \<open>
  The same control flow, recording the prefix strings handed to \<open>find_one\<close>, in the
  order of the calls.
\<close>

function find_network_probes ::
  "(string \<Rightarrow> error + ip_addr) \<Rightarrow> (string \<Rightarrow> error + 'r option) \<Rightarrow> string \<Rightarrow> int \<Rightarrow> string list"
where
  "find_network_probes ip_address find_one ip netmask =
     (case ip_address ip of
        Inl _ \<Rightarrow> []
      | Inr a \<Rightarrow>
          if version a = 4 then
            (case supernet (ip_network a) netmask of
               Inl _ \<Rightarrow> []
             | Inr network \<Rightarrow>
                 (case find_one (str_network network) of
                    Inl _ \<Rightarrow> [str_network network]
                  | Inr (Some result) \<Rightarrow> [str_network network]
                  | Inr None \<Rightarrow>
                      if netmask = 0 then [str_network network]
                      else str_network network
                             # find_network_probes ip_address find_one ip (netmask - 1)))
          else if version a = 6 then
            (case supernet (ip_network a) (netmask + 32) of
               Inl _ \<Rightarrow> []
             | Inr network \<Rightarrow>
                 (case find_one (str_network network) of
                    Inl _ \<Rightarrow> [str_network network]
                  | Inr (Some result) \<Rightarrow> [str_network network]
                  | Inr None \<Rightarrow>
                      if netmask = 0 then [str_network network]
                      else str_network network
                             # find_network_probes ip_address find_one ip (netmask - 1)))
          else [])"
  by pat_completeness auto

termination find_network_probes
proof (relation "measure (\<lambda>(ip_address, find_one, ip, netmask). nat (netmask + 33))")
  show "wf (measure (\<lambda>(ip_address, find_one, ip, netmask). nat (netmask + 33)))"
    by simp
next
  fix ip_address :: "string \<Rightarrow> error + ip_addr" and find_one :: "string \<Rightarrow> error + 'r option"
    and ip :: string and netmask :: int and a network x
  assume "supernet (ip_network a) netmask = Inr network"
  then have "0 \<le> netmask" by (cases a) (auto simp: supernet_def Let_def split: if_splits)
  then show "((ip_address, find_one, ip, netmask - 1), (ip_address, find_one, ip, netmask))
      \<in> measure (\<lambda>(ip_address, find_one, ip, netmask). nat (netmask + 33))"
    by simp
next
  fix ip_address :: "string \<Rightarrow> error + ip_addr" and find_one :: "string \<Rightarrow> error + 'r option"
    and ip :: string and netmask :: int and a network x
  assume "supernet (ip_network a) (netmask + 32) = Inr network"
  then have "0 \<le> netmask + 32" by (cases a) (auto simp: supernet_def Let_def split: if_splits)
  then show "((ip_address, find_one, ip, netmask - 1), (ip_address, find_one, ip, netmask))
      \<in> measure (\<lambda>(ip_address, find_one, ip, netmask). nat (netmask + 33))"
    by simp
qed

declare find_network.simps [simp del]
declare find_network_probes.simps [simp del]

text \<open>
  A search in closed form, to compare \<open>find_network\<close> with: the text of the network of
  length \<open>k\<close> that covers an address, and the first entry that an exact lookup finds
  along a list of prefix strings (a lookup that raises ends the search with \<open>None\<close>).
\<close>

fun covering :: "ip_addr \<Rightarrow> nat \<Rightarrow> string" where
  "covering (IPv4Address x) k =
     str_network (IPv4Network (x AND push_bit (32 - k) (2 ^ 32 - 1)) k)"
| "covering (IPv6Address x) k =
     str_network (IPv6Network (x AND push_bit (128 - k) (2 ^ 128 - 1)) k)"

fun first_hit :: "(string \<Rightarrow> error + 'r option) \<Rightarrow> string list \<Rightarrow> 'r option" where
  "first_hit find_one [] = None"
| "first_hit find_one (q # qs) =
     (case find_one q of
        Inl _ \<Rightarrow> None
      | Inr (Some result) \<Rightarrow> Some result
      | Inr None \<Rightarrow> first_hit find_one qs)"

text \<open>The lengths from \<open>hi\<close> down to \<open>lo\<close>, one at a time.\<close>

definition descending :: "nat \<Rightarrow> nat \<Rightarrow> nat list" where
  "descending hi lo = rev [lo..<Suc hi]"

text \<open>A route table without failures: \<open>find_one\<close> is the first document with that prefix.\<close>

definition find_one_in :: "route list \<Rightarrow> string \<Rightarrow> error + route option" where
  "find_one_in tbl network = Inr (find (\<lambda>r. prefix r = network) tbl)"

text \<open>A parser of which only the value at one string is known.\<close>

definition parses_to :: "string \<Rightarrow> ip_addr \<Rightarrow> string \<Rightarrow> error + ip_addr" where
  "parses_to s a t = (if t = s then Inr a else Inl ValueError)"

definition route_at :: "string \<Rightarrow> int \<Rightarrow> route" where
  "route_at p v = \<lparr>prefix = p, ip_version = v, origin_as = Some 64500,
     next_hop_asn = Some 64501, nexthop = ''198.51.100.1'', as_path = Some [64501, 64500],
     communities = [], med = 0, local_pref = 100, timestamp = 0\<rparr>"

declare covering.simps [simp del]

text \<open>
  The two branches of \<open>find_network\<close> differ only in what they add to \<open>netmask\<close>
  before calling \<open>supernet\<close>: nothing for IPv4, 32 for IPv6.
\<close>

definition family_offset :: "ip_addr \<Rightarrow> int" where
  "family_offset a = (if version a = 4 then 0 else 32)"

section \<open>\<open>asn_name_query\<close>\<close>

definition DEFAULT_ASN :: int where
  "DEFAULT_ASN = 3701"

text \<open>\<open>str\<close> of a Python integer.\<close>

definition str_int :: "int \<Rightarrow> string" where
  "str_int i = (if i < 0 then ''-'' @ str_nat (nat (- i)) else str_nat (nat i))"

text \<open>
  \<open>s.split(sep, maxsplit)\<close> for a one-character separator: at most \<open>maxsplit\<close> cuts,
  from the left. The result is never empty.
\<close>

fun split_max :: "char \<Rightarrow> nat \<Rightarrow> string \<Rightarrow> string list" where
  "split_max sep 0 s = [s]"
| "split_max sep (Suc n) [] = [[]]"
| "split_max sep (Suc n) (c # cs) =
     (if c = sep then [] # split_max sep n cs
      else (case split_max sep (Suc n) cs of
              w # ws \<Rightarrow> (c # w) # ws
            | [] \<Rightarrow> [[c]]))"

text \<open>\<open>s.split(sep)\<close>: no limit on the number of cuts (a string has at most its length).\<close>

definition split :: "char \<Rightarrow> string \<Rightarrow> string list" where
  "split sep s = split_max sep (length s) s"

text \<open>
  \<open>s.strip()\<close>. The text of a TXT record as \<open>str(rdata)\<close> gives it is ASCII, where the
  white space of \<open>str.isspace\<close> is the characters 9 to 13, 28 to 31 and 32.
\<close>

definition isspace :: "char \<Rightarrow> bool" where
  "isspace c = (of_char c \<in> {9, 10, 11, 12, 13, 28, 29, 30, 31, 32 :: nat})"

definition strip :: "string \<Rightarrow> string" where
  "strip s = rev (dropWhile isspace (rev (dropWhile isspace s)))"

text \<open>
  The resolver is a parameter: \<open>txt_query name\<close> is
  \<open>dns.resolver.Resolver().query(name, 'TXT')\<close>, \<open>Inl\<close> when it raises, otherwise the
  answers it iterates over, each already as \<open>str(rdata)\<close>. The result is \<open>None\<close> where
  the Python function falls off its end without a \<open>return\<close>.
\<close>

definition asn_name_query :: "(string \<Rightarrow> error + string list) \<Rightarrow> int option \<Rightarrow> string option" where
  "asn_name_query txt_query asn0 =
     (let asn = (case asn0 of None \<Rightarrow> DEFAULT_ASN | Some n \<Rightarrow> n)
      in if 64512 \<le> asn \<and> asn \<le> 65534 then Some ''RFC6996 - Private Use ASN''
         else (case txt_query (''as'' @ str_int asn @ ''.asn.cymru.com'') of
                 Inl _ \<Rightarrow> Some ''(DNS Error)''
               | Inr [] \<Rightarrow> None
               | Inr (rdata # _) \<Rightarrow>
                   Some (strip (hd (split_max (CHR '','') 2 (last (split (CHR ''|'') rdata)))))))"

text \<open>The names handed to the resolver by one call of \<open>asn_name_query\<close>, in order.\<close>

definition asn_name_query_lookups :: "(string \<Rightarrow> error + string list) \<Rightarrow> int option \<Rightarrow> string list" where
  "asn_name_query_lookups txt_query asn0 =
     (let asn = (case asn0 of None \<Rightarrow> DEFAULT_ASN | Some n \<Rightarrow> n)
      in if 64512 \<le> asn \<and> asn \<le> 65534 then []
         else [''as'' @ str_int asn @ ''.asn.cymru.com''])"

section \<open>\<open>avg_as_path_length\<close>\<close>

subsection \<open>Python floats\<close>

text \<open>
  A finite binary64 value is kept as a pair: \<open>Float m e\<close> stands for \<open>m * 2 ^ e\<close>. Only
  what \<open>avg_as_path_length\<close> does with floats is modelled, on non-negative operands:
  conversion from an integer, true division, and \<open>round(x, 3)\<close> as Python 3 computes
  them, each correctly rounded to 53 bits, ties to even. The exponent range of binary64 is not modelled: counts below
  \<open>2 ^ 1023\<close> never leave it.
\<close>

datatype pyfloat = Float int int

definition pow2 :: "int \<Rightarrow> rat" where
  "pow2 e = (if 0 \<le> e then 2 ^ nat e else 1 / 2 ^ nat (- e))"

fun float_val :: "pyfloat \<Rightarrow> rat" where
  "float_val (Float m e) = of_int m * pow2 e"

fun bit_length :: "nat \<Rightarrow> nat" where
  "bit_length n = (if n = 0 then 0 else Suc (bit_length (n div 2)))"

declare bit_length.simps [simp del]

text \<open>The integer nearest to \<open>n / d\<close> for \<open>d > 0\<close>, a tie going to the even one.\<close>

definition round_half_even_div :: "int \<Rightarrow> int \<Rightarrow> int" where
  "round_half_even_div n d =
     (let q = n div d; r = n mod d
      in if 2 * r < d then q
         else if 2 * r > d then q + 1
         else if even q then q else q + 1)"

text \<open>
  The float nearest to \<open>a / b\<close>, for integers \<open>a \<ge> 0\<close> and \<open>b > 0\<close>: the exponent
  \<open>e\<close> is the one that puts \<open>a / b / 2 ^ e\<close> between \<open>2 ^ 52\<close> and \<open>2 ^ 53\<close>, found
  from the bit lengths of \<open>a\<close> and \<open>b\<close>.
\<close>

text \<open>Numerator and denominator of \<open>a / b / 2 ^ e\<close> as integers.\<close>

definition scaled_num :: "int \<Rightarrow> int \<Rightarrow> int" where
  "scaled_num a e = (if e \<le> 0 then a * 2 ^ nat (- e) else a)"

definition scaled_den :: "int \<Rightarrow> int \<Rightarrow> int" where
  "scaled_den b e = (if e \<le> 0 then b else b * 2 ^ nat e)"

definition fl_ratio :: "int \<Rightarrow> int \<Rightarrow> pyfloat" where
  "fl_ratio a b =
     (if a = 0 then Float 0 0
      else let e0 = int (bit_length (nat a)) - int (bit_length (nat b)) - 53;
               e = (if scaled_num a e0 \<ge> 2 ^ 53 * scaled_den b e0 then e0 + 1 else e0)
           in Float (round_half_even_div (scaled_num a e) (scaled_den b e)) e)"

text \<open>\<open>float(n)\<close>, as \<open>n * 1.0\<close> and \<open>n / x\<close> convert an integer operand.\<close>

definition float_of_int :: "int \<Rightarrow> pyfloat" where
  "float_of_int n = fl_ratio n 1"

text \<open>\<open>x / y\<close> on floats: \<open>ZeroDivisionError\<close> on a zero divisor.\<close>

fun float_truediv :: "pyfloat \<Rightarrow> pyfloat \<Rightarrow> error + pyfloat" where
  "float_truediv (Float m1 e1) (Float m2 e2) =
     (if m2 = 0 then Inl ZeroDivisionError
      else Inr (fl_ratio (m1 * 2 ^ nat (e1 - e2)) (m2 * 2 ^ nat (e2 - e1))))"

text \<open>
  \<open>round(x, 3)\<close>: the decimal with three places nearest to the exact value of \<open>x\<close>
  (a tie to the even last digit), converted back to the nearest float.
\<close>

fun round3 :: "pyfloat \<Rightarrow> pyfloat" where
  "round3 (Float m e) =
     fl_ratio (round_half_even_div (scaled_num (1000 * m) (- e)) (scaled_den 1 (- e))) 1000"

subsection \<open>The function\<close>

text \<open>
  \<open>db.bgp.find()\<close> is the list of documents in cursor order, and
  \<open>all_prefixes.count()\<close> its length. The body of the loop is inside
  \<open>try\<close>/\<open>except: pass\<close>: an entry whose \<open>as_path\<close> is missing or null adds nothing.
  The division is after the loop, outside any handler.
\<close>

definition as_path_step :: "route \<Rightarrow> int \<Rightarrow> int" where
  "as_path_step doc as_path_counter =
     (case as_path doc of
        None \<Rightarrow> as_path_counter
      | Some path \<Rightarrow> as_path_counter + int (length (remdups path)))"

definition avg_as_path_length :: "route list \<Rightarrow> error + pyfloat" where
  "avg_as_path_length tbl =
     (let as_path_counter = fold as_path_step tbl 0
      in case float_truediv (float_of_int as_path_counter)
                (float_of_int (int (length tbl))) of
           Inl e \<Rightarrow> Inl e
         | Inr x \<Rightarrow> Inr (round3 x))"

text \<open>
  The average as the specification words it: the number of distinct AS numbers of an
  entry, 0 for an entry without a path, summed over the table.
\<close>

definition distinct_as_count :: "route \<Rightarrow> int" where
  "distinct_as_count r = (case as_path r of None \<Rightarrow> 0 | Some path \<Rightarrow> int (card (set path)))"

section \<open>\<open>communities_count\<close>\<close>

text \<open>
  \<open>db.bgp.distinct('communities')\<close>: the values of the field over all documents without
  repetition, an array giving each of its elements. The store does not specify their
  order; the model lists each value at its last occurrence.
\<close>

definition distinct_communities :: "route list \<Rightarrow> string list" where
  "distinct_communities tbl = remdups (concat (map communities tbl))"

text \<open>
  \<open>db.bgp.find({'communities': {'$regex': comm}}).count()\<close>: the number of documents
  with an element of \<open>communities\<close> in which the regular expression \<open>comm\<close> finds a match.
  The matcher of the store is a parameter: \<open>regex pattern value\<close> says whether the
  pattern finds a match somewhere in the value.
\<close>

definition regex_count :: "(string \<Rightarrow> string \<Rightarrow> bool) \<Rightarrow> route list \<Rightarrow> string \<Rightarrow> nat" where
  "regex_count regex tbl comm = length (filter (\<lambda>r. list_ex (regex comm) (communities r)) tbl)"

definition communities_count :: "(string \<Rightarrow> string \<Rightarrow> bool) \<Rightarrow> route list \<Rightarrow> (string \<times> nat) list" where
  "communities_count regex tbl =
     map (\<lambda>comm. (comm, regex_count regex tbl comm)) (distinct_communities tbl)"

subsection \<open>What a pattern matches\<close>

text \<open>
  The store matches with Perl-compatible regular expressions. Two kinds of pattern
  character are given a meaning here: a character that is not a metacharacter stands for
  itself, and a dot stands for any character but a newline. A pattern with any other
  metacharacter is outside this fragment (\<open>None\<close>).
\<close>

definition regex_special :: "char \<Rightarrow> bool" where
  "regex_special c = (c \<in> set [CHR 0x5C, CHR ''^'', CHR ''$'', CHR ''.'', CHR ''|'', CHR ''?'',
     CHR ''*'', CHR ''+'', CHR ''('', CHR '')'', CHR ''['', CHR '']'', CHR ''{'', CHR ''}''])"

datatype atom = Lit char | AnyChar

fun compile_pattern :: "string \<Rightarrow> atom list option" where
  "compile_pattern [] = Some []"
| "compile_pattern (c # cs) =
     (if c = CHR ''.'' then map_option ((#) AnyChar) (compile_pattern cs)
      else if regex_special c then None
      else map_option ((#) (Lit c)) (compile_pattern cs))"

fun atom_matches :: "atom \<Rightarrow> char \<Rightarrow> bool" where
  "atom_matches (Lit c) d = (c = d)"
| "atom_matches AnyChar d = (d \<noteq> CHR 0x0A)"

fun match_here :: "atom list \<Rightarrow> string \<Rightarrow> bool" where
  "match_here [] s = True"
| "match_here (a # as) [] = False"
| "match_here (a # as) (d # ds) = (atom_matches a d \<and> match_here as ds)"

fun match_anywhere :: "atom list \<Rightarrow> string \<Rightarrow> bool" where
  "match_anywhere p [] = match_here p []"
| "match_anywhere p (d # ds) = (match_here p (d # ds) \<or> match_anywhere p ds)"

definition fragment_search :: "string \<Rightarrow> string \<Rightarrow> bool option" where
  "fragment_search pattern s = map_option (\<lambda>p. match_anywhere p s) (compile_pattern pattern)"


text \<open>The fragment as a matcher: a pattern outside it is taken to match nothing.\<close>

definition fragment_regex :: "string \<Rightarrow> string \<Rightarrow> bool" where
  "fragment_regex pattern s = (fragment_search pattern s = Some True)"

subsection \<open>Substrings, as the specification words the count\<close>






section \<open>The aggregates and the \<open>Stats\<close> cache\<close>

text \<open>What \<open>jsonify\<close> is given: the Python values built by the aggregate functions.\<close>

datatype json = JNull | JInt int | JFloat pyfloat | JStr string
  | JList "json list" | JDict "(string \<times> json) list"

text \<open>
  What the refresh tasks read beside the clock: the route table (the documents in cursor
  order), and five collaborators outside the repository: the resolver of
  \<open>asn_name_query\<close>, the \<open>$regex\<close> matcher of the store, the order in which Python
  iterates over the \<open>set\<close> built by adding the given values in the given order, \<open>int\<close> on
  a string, and the zone name that \<open>%Z\<close> prints for a \<open>gmtime\<close> value.
\<close>

record world =
  w_table :: "route list"
  w_txt_query :: "string \<Rightarrow> error + string list"
  w_regex :: "string \<Rightarrow> string \<Rightarrow> bool"
  w_set_iter :: "int option list \<Rightarrow> int option list"
  w_int :: "string \<Rightarrow> error + int"
  w_tzname :: string

subsection \<open>\<open>epoch_to_date\<close>\<close>

text \<open>
  \<open>time.gmtime\<close> on whole seconds (a fraction is dropped): the civil date of a day
  number counted from 1970-01-01, in the Gregorian calendar.
\<close>

definition civil_from_days :: "int \<Rightarrow> int \<times> int \<times> int" where
  "civil_from_days z0 =
     (let z = z0 + 719468;
          era = z div 146097;
          doe = z - era * 146097;
          yoe = (doe - doe div 1460 + doe div 36524 - doe div 146096) div 365;
          y = yoe + era * 400;
          doy = doe - (365 * yoe + yoe div 4 - yoe div 100);
          mp = (5 * doy + 2) div 153;
          d = doy - (153 * mp + 2) div 5 + 1;
          m = (if mp < 10 then mp + 3 else mp - 9)
      in (if m \<le> 2 then y + 1 else y, m, d))"

definition pad2 :: "int \<Rightarrow> string" where
  "pad2 n = (if n < 10 then ''0'' @ str_int n else str_int n)"

text \<open>\<open>time.strftime('%Y-%m-%d %H:%M:%S %Z', time.gmtime(epoch))\<close>, for years of four digits.\<close>

definition epoch_to_date :: "string \<Rightarrow> int \<Rightarrow> string" where
  "epoch_to_date zone epoch =
     (let secs = epoch mod 86400
      in case civil_from_days (epoch div 86400) of (y, m, d) \<Rightarrow>
           str_int y @ ''-'' @ pad2 m @ ''-'' @ pad2 d @ '' '' @ pad2 (secs div 3600) @ '':''
             @ pad2 (secs mod 3600 div 60) @ '':'' @ pad2 (secs mod 60) @ '' '' @ zone)"

subsection \<open>Counts\<close>

text \<open>\<open>db.bgp.distinct(field)\<close> gives each value once; a stored null is a value.\<close>

definition peer_count :: "route list \<Rightarrow> int" where
  "peer_count tbl = int (length (remdups (map next_hop_asn tbl)))"

definition prefix_count :: "route list \<Rightarrow> int \<Rightarrow> int" where
  "prefix_count tbl v = int (length (filter (\<lambda>r. ip_version r = v) tbl))"

definition nexthop_ip_count :: "route list \<Rightarrow> int" where
  "nexthop_ip_count tbl = int (length (remdups (map nexthop tbl)))"

text \<open>\<open>db.bgp.find({'next_hop_asn': asn, 'ip_version': v}).count()\<close>\<close>

definition asn_version_count :: "route list \<Rightarrow> int option \<Rightarrow> int \<Rightarrow> int" where
  "asn_version_count tbl asn v =
     int (length (filter (\<lambda>r. next_hop_asn r = asn \<and> ip_version r = v) tbl))"

subsection \<open>\<open>peers\<close> and \<open>customers\<close>\<close>

definition name_json :: "string option \<Rightarrow> json" where
  "name_json n = (case n of None \<Rightarrow> JNull | Some s \<Rightarrow> JStr s)"

definition opt_int_json :: "int option \<Rightarrow> json" where
  "opt_int_json n = (case n of None \<Rightarrow> JNull | Some i \<Rightarrow> JInt i)"

text \<open>The dictionary that the loops of \<open>peers\<close> and \<open>customers\<close> append for one ASN.\<close>

definition peer_entry :: "world \<Rightarrow> int option \<Rightarrow> json" where
  "peer_entry w asn0 =
     (let ipv4_count = asn_version_count (w_table w) asn0 4;
          ipv6_count = asn_version_count (w_table w) asn0 6;
          asn = (case asn0 of None \<Rightarrow> DEFAULT_ASN | Some n \<Rightarrow> n)
      in JDict [(''asn'', JInt asn),
                (''name'', name_json (asn_name_query (w_txt_query w) (Some asn))),
                (''ipv4_count'', JInt ipv4_count),
                (''ipv6_count'', JInt ipv6_count)])"

definition peers :: "world \<Rightarrow> json list" where
  "peers w =
     (let myset = w_set_iter w (map next_hop_asn (w_table w))
      in fold (\<lambda>asn json_data. json_data @ [peer_entry w asn]) myset [])"

definition customers_step :: "world \<Rightarrow> int option \<Rightarrow> json list \<times> int \<times> int \<Rightarrow> json list \<times> int \<times> int" where
  "customers_step w asn acc =
     (case acc of (json_data, ipv4_prefix_counter, ipv6_prefix_counter) \<Rightarrow>
        (json_data @ [peer_entry w asn],
         ipv4_prefix_counter + asn_version_count (w_table w) asn 4,
         ipv6_prefix_counter + asn_version_count (w_table w) asn 6))"

definition customers :: "world \<Rightarrow> json list \<times> int \<times> int" where
  "customers w =
     (let customers_list = filter (\<lambda>r. ''3701:370'' \<in> set (communities r)) (w_table w);
          myset = w_set_iter w (map next_hop_asn customers_list)
      in fold (customers_step w) myset ([], 0, 0))"

subsection \<open>\<open>top_peers\<close>\<close>

text \<open>
  The dictionary of the comprehension keeps the order of \<open>distinct\<close>; \<open>sorted\<close> with
  \<open>reverse=True\<close> is stable, as \<open>sort_key\<close> on the negated count is.
\<close>

definition top_peers :: "world \<Rightarrow> nat \<Rightarrow> json list" where
  "top_peers w count =
     (let peers = map (\<lambda>peer. (peer, int (length (filter (\<lambda>r. next_hop_asn r = peer) (w_table w)))))
                      (remdups (map next_hop_asn (w_table w)))
      in map (\<lambda>asn. JDict [(''asn'', opt_int_json (fst asn)),
                            (''count'', JInt (snd asn)),
                            (''name'', name_json (asn_name_query (w_txt_query w) (fst asn)))])
             (take count (sort_key (\<lambda>x. - snd x) peers)))"

subsection \<open>\<open>cidr_breakdown\<close>\<close>

text \<open>\<open>int(prefix['prefix'].split('/', 1)[1])\<close>: \<open>IndexError\<close> without a slash.\<close>

definition mask_of :: "world \<Rightarrow> route \<Rightarrow> error + int" where
  "mask_of w r =
     (case split_max (CHR ''/'') 1 (prefix r) of
        _ # m # _ \<Rightarrow> w_int w m
      | _ \<Rightarrow> Inl IndexError)"

text \<open>
  The loop over all prefixes, collecting the two lists of masks. For an IPv4 prefix
  longer than /24 the source also evaluates \<open>int(prefix['origin_as'])\<close>, which raises
  \<open>TypeError\<close> on a null origin.
\<close>

fun cidr_scan :: "world \<Rightarrow> route list \<Rightarrow> int list \<times> int list \<Rightarrow> error + int list \<times> int list" where
  "cidr_scan w [] acc = Inr acc"
| "cidr_scan w (r # rs) (ipv4_list, ipv6_list) =
     (if ip_version r = 4 then
        (case mask_of w r of
           Inl e \<Rightarrow> Inl e
         | Inr m \<Rightarrow>
             if m > 24 \<and> origin_as r = None then Inl TypeError
             else cidr_scan w rs (ipv4_list @ [m], ipv6_list))
      else if ip_version r = 6 then
        (case mask_of w r of
           Inl e \<Rightarrow> Inl e
         | Inr m \<Rightarrow> cidr_scan w rs (ipv4_list, ipv6_list @ [m]))
      else cidr_scan w rs (ipv4_list, ipv6_list))"

text \<open>\<open>list(Counter(xs).items())\<close>: each value with its number of occurrences, in the
  order of first occurrence.\<close>

definition counter_items :: "int list \<Rightarrow> (int \<times> int) list" where
  "counter_items xs = map (\<lambda>x. (x, int (count_list xs x))) (rev (remdups (rev xs)))"

definition cidr_breakdown :: "world \<Rightarrow> error + json list" where
  "cidr_breakdown w =
     (case cidr_scan w (w_table w) ([], []) of
        Inl e \<Rightarrow> Inl e
      | Inr (ipv4_list, ipv6_list) \<Rightarrow>
          Inr (map (\<lambda>(mask, count). JDict [(''mask'', JInt mask), (''count'', JInt count),
                                        (''ip_version'', JInt 4)]) (counter_items ipv4_list)
               @ map (\<lambda>(mask, count). JDict [(''mask'', JInt mask), (''count'', JInt count),
                                        (''ip_version'', JInt 6)]) (counter_items ipv6_list)))"

text \<open>\<open>communities_count\<close> as the list of dictionaries it returns.\<close>

definition communities_json :: "world \<Rightarrow> json list" where
  "communities_json w =
     map (\<lambda>(comm, n). JDict [(''community'', JStr comm), (''count'', JInt (int n))])
         (communities_count (w_regex w) (w_table w))"

subsection \<open>\<open>Stats\<close>\<close>

text \<open>
  The attributes of the one \<open>Stats\<close> object. An attribute whose name is also that of a
  function or of a field of \<open>route\<close> carries the suffix \<open>_attr\<close>.
\<close>

record Stats =
  peer_counter :: int
  ipv4_table_size :: int
  ipv6_table_size :: int
  nexthop_ip_counter :: int
  avg_as_path_length_attr :: json
  top_n_peers :: json
  cidr_breakdown_attr :: json
  communities_attr :: json
  peers_attr :: json
  customers_attr :: json
  customer_count :: int
  customer_ipv4_prefixes :: int
  customer_ipv6_prefixes :: int
  timestamp_attr :: string

text \<open>\<open>Stats.__init__\<close>, at clock reading \<open>now\<close>.\<close>

definition Stats_init :: "world \<Rightarrow> int \<Rightarrow> Stats" where
  "Stats_init w now =
     \<lparr>peer_counter = 0, ipv4_table_size = 0, ipv6_table_size = 0, nexthop_ip_counter = 0,
      avg_as_path_length_attr = JInt 0, top_n_peers = JNull, cidr_breakdown_attr = JNull,
      communities_attr = JNull, peers_attr = JNull, customers_attr = JNull,
      customer_count = 0, customer_ipv4_prefixes = 0, customer_ipv6_prefixes = 0,
      timestamp_attr = epoch_to_date (w_tzname w) now\<rparr>"

definition get_data :: "Stats \<Rightarrow> json" where
  "get_data self =
     JDict [(''peer_count'', JInt (peer_counter self)),
            (''ipv6_table_size'', JInt (ipv6_table_size self)),
            (''ipv4_table_size'', JInt (ipv4_table_size self)),
            (''nexthop_ip_count'', JInt (nexthop_ip_counter self)),
            (''avg_as_path_length'', avg_as_path_length_attr self),
            (''top_n_peers'', top_n_peers self),
            (''cidr_breakdown'', cidr_breakdown_attr self),
            (''communities'', communities_attr self),
            (''peers'', peers_attr self),
            (''customers'', customers_attr self),
            (''customer_count'', JInt (customer_count self)),
            (''customer_ipv4_prefixes'', JInt (customer_ipv4_prefixes self)),
            (''customer_ipv6_prefixes'', JInt (customer_ipv6_prefixes self)),
            (''timestamp'', JStr (timestamp_attr self))]"


text \<open>
  A refresh task is a sequence of statements, each assigning one attribute; a statement
  whose right-hand side raises ends the task and leaves the attributes assigned so far.
  \<open>run_steps\<close> gives the object after the task and the exception, if any;
  \<open>states_during\<close> lists the object as it is before the first statement and after each
  completed one: what a reader in another thread can find when it samples the object.
\<close>

fun run_steps :: "(Stats \<Rightarrow> error + Stats) list \<Rightarrow> Stats \<Rightarrow> Stats \<times> error option" where
  "run_steps [] self = (self, None)"
| "run_steps (f # fs) self =
     (case f self of Inl e \<Rightarrow> (self, Some e) | Inr self' \<Rightarrow> run_steps fs self')"


text \<open>The eight statements of \<open>update_stats\<close>; \<open>now\<close> is what \<open>time.time()\<close> returns.\<close>

definition update_stats_steps :: "world \<Rightarrow> int \<Rightarrow> (Stats \<Rightarrow> error + Stats) list" where
  "update_stats_steps w now =
     [\<lambda>self. Inr (self\<lparr>peer_counter := peer_count (w_table w)\<rparr>),
      \<lambda>self. Inr (self\<lparr>ipv4_table_size := prefix_count (w_table w) 4\<rparr>),
      \<lambda>self. Inr (self\<lparr>ipv6_table_size := prefix_count (w_table w) 6\<rparr>),
      \<lambda>self. Inr (self\<lparr>nexthop_ip_counter := nexthop_ip_count (w_table w)\<rparr>),
      \<lambda>self. Inr (self\<lparr>timestamp_attr := epoch_to_date (w_tzname w) now\<rparr>),
      \<lambda>self. Inr (self\<lparr>customer_count := int (length (fst (customers w)))\<rparr>),
      \<lambda>self. Inr (self\<lparr>customer_ipv4_prefixes := fst (snd (customers w))\<rparr>),
      \<lambda>self. Inr (self\<lparr>customer_ipv6_prefixes := snd (snd (customers w))\<rparr>)]"

definition update_stats :: "world \<Rightarrow> int \<Rightarrow> Stats \<Rightarrow> Stats \<times> error option" where
  "update_stats w now self = run_steps (update_stats_steps w now) self"

text \<open>The seven statements of \<open>update_advanced_stats\<close>.\<close>

definition update_advanced_stats_steps :: "world \<Rightarrow> int \<Rightarrow> (Stats \<Rightarrow> error + Stats) list" where
  "update_advanced_stats_steps w now =
     [\<lambda>self. case avg_as_path_length (w_table w) of
                Inl e \<Rightarrow> Inl e
              | Inr v \<Rightarrow> Inr (self\<lparr>avg_as_path_length_attr := JFloat v\<rparr>),
      \<lambda>self. Inr (self\<lparr>top_n_peers := JList (top_peers w 5)\<rparr>),
      \<lambda>self. case cidr_breakdown w of
                Inl e \<Rightarrow> Inl e
              | Inr json_data \<Rightarrow> Inr (self\<lparr>cidr_breakdown_attr := JList json_data\<rparr>),
      \<lambda>self. Inr (self\<lparr>peers_attr := JList (peers w)\<rparr>),
      \<lambda>self. Inr (self\<lparr>customers_attr := JList (fst (customers w))\<rparr>),
      \<lambda>self. Inr (self\<lparr>communities_attr := JList (communities_json w)\<rparr>),
      \<lambda>self. Inr (self\<lparr>timestamp_attr := epoch_to_date (w_tzname w) now\<rparr>)]"

definition update_advanced_stats :: "world \<Rightarrow> int \<Rightarrow> Stats \<Rightarrow> Stats \<times> error option" where
  "update_advanced_stats w now self = run_steps (update_advanced_stats_steps w now) self"

text \<open>A world for examples: no name service, the fragment matcher, sets iterated in
  order of insertion, \<open>int\<close> known on the masks 16, 24 and 25.\<close>

definition example_world :: "route list \<Rightarrow> world" where
  "example_world tbl =
     \<lparr>w_table = tbl, w_txt_query = (\<lambda>q. Inl DNSException), w_regex = fragment_regex,
      w_set_iter = remdups,
      w_int = (\<lambda>s. if s = ''16'' then Inr 16 else if s = ''24'' then Inr 24
                   else if s = ''25'' then Inr 25 else Inl ValueError),
      w_tzname = ''GMT''\<rparr>"

section \<open>Properties of \<open>find_network\<close>\<close>

lemma supernet_Inr_range:
  "supernet (ip_network a) k = Inr n \<Longrightarrow> 0 \<le> k \<and> k \<le> int (prefixlen (ip_network a))"
  by (cases a) (auto simp: supernet_def Let_def split: if_splits)


lemma supernet_v4:
  assumes "n \<le> 32"
  obtains net where "supernet (ip_network (IPv4Address x)) (int n) = Inr net"
    and "str_network net = covering (IPv4Address x) n"
  using assms by (simp add: supernet_def Let_def nat_diff_distrib' covering.simps)

lemma supernet_v6:
  assumes "n \<le> 128"
  obtains net where "supernet (ip_network (IPv6Address x)) (int n) = Inr net"
    and "str_network net = covering (IPv6Address x) n"
  using assms by (simp add: supernet_def Let_def nat_diff_distrib' covering.simps)

lemma descending_Suc: "lo \<le> Suc hi \<Longrightarrow> descending (Suc hi) lo = Suc hi # descending hi lo"
  by (simp add: descending_def)

lemma descending_same: "descending n n = [n]"
  by (simp add: descending_def)

lemma find_network_v4_step:
  assumes "ip_address ip = Inr (IPv4Address x)"
    and "supernet (ip_network (IPv4Address x)) m = Inr net"
  shows "find_network ip_address find_one ip m =
      (case find_one (str_network net) of
         Inl _ \<Rightarrow> None
       | Inr (Some result) \<Rightarrow> Some result
       | Inr None \<Rightarrow> if m = 0 then None else find_network ip_address find_one ip (m - 1))"
  using assms by (subst find_network.simps) simp

lemma find_network_v6_step:
  assumes "ip_address ip = Inr (IPv6Address x)"
    and "supernet (ip_network (IPv6Address x)) (m + 32) = Inr net"
  shows "find_network ip_address find_one ip m =
      (case find_one (str_network net) of
         Inl _ \<Rightarrow> None
       | Inr (Some result) \<Rightarrow> Some result
       | Inr None \<Rightarrow> if m = 0 then None else find_network ip_address find_one ip (m - 1))"
  using assms by (subst find_network.simps) simp

lemma find_network_v4:
  assumes "ip_address ip = Inr (IPv4Address x)" and "n \<le> 32"
  shows "find_network ip_address find_one ip (int n)
         = first_hit find_one (map (covering (IPv4Address x)) (descending n 0))"
  using assms(2)
proof (induction n)
  case 0
  obtain net where "supernet (ip_network (IPv4Address x)) 0 = Inr net"
    and "str_network net = covering (IPv4Address x) 0"
    using supernet_v4 [of 0 x] by auto
  then show ?case
    using find_network_v4_step [of ip_address ip x 0 net find_one] assms(1)
    by (simp add: descending_same split: sum.splits option.splits)
next
  case (Suc n)
  obtain net where sn: "supernet (ip_network (IPv4Address x)) (int (Suc n)) = Inr net"
    and st: "str_network net = covering (IPv4Address x) (Suc n)"
    using Suc.prems by (rule supernet_v4)
  have m1: "int (Suc n) - 1 = int n" and nz: "int (Suc n) \<noteq> 0" by simp_all
  have "find_network ip_address find_one ip (int (Suc n)) =
      (case find_one (str_network net) of
         Inl _ \<Rightarrow> None
       | Inr (Some result) \<Rightarrow> Some result
       | Inr None \<Rightarrow> if int (Suc n) = 0 then None
                     else find_network ip_address find_one ip (int (Suc n) - 1))"
    using assms(1) sn by (rule find_network_v4_step)
  then have step: "find_network ip_address find_one ip (int (Suc n)) =
      (case find_one (covering (IPv4Address x) (Suc n)) of
         Inl _ \<Rightarrow> None
       | Inr (Some result) \<Rightarrow> Some result
       | Inr None \<Rightarrow> find_network ip_address find_one ip (int n))"
    by (simp only: st m1 nz if_False)
  have IH: "find_network ip_address find_one ip (int n)
         = first_hit find_one (map (covering (IPv4Address x)) (descending n 0))"
    using Suc by simp
  have d: "descending (Suc n) 0 = Suc n # descending n 0"
    by (simp add: descending_Suc)
  show ?case
    unfolding step d IH by (simp only: list.map first_hit.simps)
qed

lemma find_network_v6:
  assumes "ip_address ip = Inr (IPv6Address x)" and "n \<le> 96"
  shows "find_network ip_address find_one ip (int n)
         = first_hit find_one (map (covering (IPv6Address x)) (descending (n + 32) 32))"
  using assms(2)
proof (induction n)
  case 0
  obtain net where "supernet (ip_network (IPv6Address x)) 32 = Inr net"
    and "str_network net = covering (IPv6Address x) 32"
    using supernet_v6 [of 32 x] by auto
  then show ?case
    using find_network_v6_step [of ip_address ip x 0 net find_one] assms(1)
    by (simp add: descending_same split: sum.splits option.splits)
next
  case (Suc n)
  have "Suc n + 32 \<le> 128" using Suc.prems by simp
  then obtain net where sn: "supernet (ip_network (IPv6Address x)) (int (Suc n + 32)) = Inr net"
    and st: "str_network net = covering (IPv6Address x) (Suc n + 32)"
    by (rule supernet_v6)
  have e: "int (Suc n + 32) = int (Suc n) + 32" by simp
  have m1: "int (Suc n) - 1 = int n" and nz: "int (Suc n) \<noteq> 0" by simp_all
  have "find_network ip_address find_one ip (int (Suc n)) =
      (case find_one (str_network net) of
         Inl _ \<Rightarrow> None
       | Inr (Some result) \<Rightarrow> Some result
       | Inr None \<Rightarrow> if int (Suc n) = 0 then None
                     else find_network ip_address find_one ip (int (Suc n) - 1))"
    using assms(1) sn [unfolded e] by (rule find_network_v6_step)
  then have step: "find_network ip_address find_one ip (int (Suc n)) =
      (case find_one (covering (IPv6Address x) (Suc n + 32)) of
         Inl _ \<Rightarrow> None
       | Inr (Some result) \<Rightarrow> Some result
       | Inr None \<Rightarrow> find_network ip_address find_one ip (int n))"
    by (simp only: st m1 nz if_False)
  have IH: "find_network ip_address find_one ip (int n)
         = first_hit find_one (map (covering (IPv6Address x)) (descending (n + 32) 32))"
    using Suc by simp
  have d: "descending (Suc n + 32) 32 = (Suc n + 32) # descending (n + 32) 32"
    using descending_Suc [of 32 "n + 32"] by simp
  show ?case
    unfolding step d IH by (simp only: list.map first_hit.simps)
qed

lemma find_network_unfold:
  "find_network ip_address find_one ip netmask =
     (case ip_address ip of
        Inl _ \<Rightarrow> None
      | Inr a \<Rightarrow>
          (case supernet (ip_network a) (netmask + family_offset a) of
             Inl _ \<Rightarrow> None
           | Inr network \<Rightarrow>
               (case find_one (str_network network) of
                  Inl _ \<Rightarrow> None
                | Inr (Some result) \<Rightarrow> Some result
                | Inr None \<Rightarrow>
                    if netmask = 0 then None
                    else find_network ip_address find_one ip (netmask - 1))))"
proof (cases "ip_address ip")
  case (Inl e)
  then show ?thesis by (subst find_network.simps) simp
next
  case (Inr a)
  then show ?thesis
    by (subst find_network.simps, cases a) (simp_all add: family_offset_def)
qed

lemma find_network_probes_unfold:
  "find_network_probes ip_address find_one ip netmask =
     (case ip_address ip of
        Inl _ \<Rightarrow> []
      | Inr a \<Rightarrow>
          (case supernet (ip_network a) (netmask + family_offset a) of
             Inl _ \<Rightarrow> []
           | Inr network \<Rightarrow>
               (case find_one (str_network network) of
                  Inl _ \<Rightarrow> [str_network network]
                | Inr (Some result) \<Rightarrow> [str_network network]
                | Inr None \<Rightarrow>
                    if netmask = 0 then [str_network network]
                    else str_network network
                           # find_network_probes ip_address find_one ip (netmask - 1))))"
proof (cases "ip_address ip")
  case (Inl e)
  then show ?thesis by (subst find_network_probes.simps) simp
next
  case (Inr a)
  then show ?thesis
    by (subst find_network_probes.simps, cases a) (simp_all add: family_offset_def)
qed

lemma family_offset_range: "0 \<le> family_offset a" "family_offset a \<le> 32"
  by (simp_all add: family_offset_def)

lemma probe_error_gives_None:
  assumes "q \<in> set (find_network_probes ip_address find_one ip netmask)"
    and "find_one q = Inl e"
  shows "find_network ip_address find_one ip netmask = None"
  using assms(1)
proof (induction "nat (netmask + 33)" arbitrary: netmask rule: less_induct)
  case less
  show ?case
  proof (cases "ip_address ip")
    case (Inl e')
    then show ?thesis by (subst find_network_unfold) simp
  next
    case a: (Inr a)
    show ?thesis
    proof (cases "supernet (ip_network a) (netmask + family_offset a)")
      case (Inl e')
      with a show ?thesis by (subst find_network_unfold) simp
    next
      case net: (Inr net)
      then have lo: "0 \<le> netmask + family_offset a"
        by (auto dest: supernet_Inr_range)
      show ?thesis
      proof (cases "find_one (str_network net)")
        case (Inl e')
        with a net show ?thesis by (subst find_network_unfold) simp
      next
        case r: (Inr r)
        show ?thesis
        proof (cases r)
          case (Some entry)
          with a net r have "find_network_probes ip_address find_one ip netmask = [str_network net]"
            by (subst find_network_probes_unfold) simp
          with less.prems have "q = str_network net" by simp
          with r assms(2) show ?thesis by simp
        next
          case None
          show ?thesis
          proof (cases "netmask = 0")
            case True
            with a net r None
            have "find_network_probes ip_address find_one ip netmask = [str_network net]"
              by (subst find_network_probes_unfold) simp
            with less.prems have "q = str_network net" by simp
            with r assms(2) show ?thesis by simp
          next
            case False
            with a net r None
            have p: "find_network_probes ip_address find_one ip netmask
                    = str_network net # find_network_probes ip_address find_one ip (netmask - 1)"
              by (subst find_network_probes_unfold) simp
            have "q \<noteq> str_network net" using r assms(2) by auto
            with less.prems p
            have q: "q \<in> set (find_network_probes ip_address find_one ip (netmask - 1))" by simp
            have "nat (netmask - 1 + 33) < nat (netmask + 33)"
              using lo family_offset_range [of a] by simp
            then have "find_network ip_address find_one ip (netmask - 1) = None"
              using q by (rule less.hyps)
            with a net r None False show ?thesis
              by (subst find_network_unfold) simp
          qed
        qed
      qed
    qed
  qed
qed

lemma probes_length:
  "length (find_network_probes ip_address find_one ip netmask)
   \<le> (case ip_address ip of Inl _ \<Rightarrow> 0
       | Inr a \<Rightarrow> if 0 \<le> netmask + family_offset a \<and> netmask + family_offset a \<le> int (prefixlen (ip_network a))
                then (if netmask < 0 then nat (netmask + family_offset a + 1) else nat (netmask + 1)) else 0)"
proof (induction "nat (netmask + 33)" arbitrary: netmask rule: less_induct)
  case less
  show ?case
  proof (cases "ip_address ip")
    case (Inl e')
    then show ?thesis by (subst find_network_probes_unfold) simp
  next
    case a: (Inr a)
    show ?thesis
    proof (cases "supernet (ip_network a) (netmask + family_offset a)")
      case (Inl e')
      with a show ?thesis by (subst find_network_probes_unfold) simp
    next
      case net: (Inr net)
      then have rng: "0 \<le> netmask + family_offset a"
          "netmask + family_offset a \<le> int (prefixlen (ip_network a))"
        by (auto dest: supernet_Inr_range)
      show ?thesis
      proof (cases "find_one (str_network net) = Inr None \<and> netmask \<noteq> 0")
        case False
        then have "find_network_probes ip_address find_one ip netmask = [str_network net]"
          using a net by (subst find_network_probes_unfold) (auto split: sum.splits option.splits)
        then show ?thesis using a rng by (simp; linarith)
      next
        case True
        then have p: "find_network_probes ip_address find_one ip netmask
                    = str_network net # find_network_probes ip_address find_one ip (netmask - 1)"
          using a net by (subst find_network_probes_unfold) simp
        have "nat (netmask - 1 + 33) < nat (netmask + 33)"
          using rng family_offset_range [of a] by simp
        from less.hyps [OF this]
        have IH: "length (find_network_probes ip_address find_one ip (netmask - 1))
           \<le> (if 0 \<le> netmask - 1 + family_offset a \<and> netmask - 1 + family_offset a \<le> int (prefixlen (ip_network a))
                then (if netmask - 1 < 0 then nat (netmask - 1 + family_offset a + 1) else nat (netmask - 1 + 1)) else 0)"
          using a by simp
        show ?thesis
          using IH True rng a unfolding p by (auto split: if_splits)
      qed
    qed
  qed
qed

lemma find_network_is_first_hit_of_probes:
  "find_network ip_address find_one ip netmask
   = first_hit find_one (find_network_probes ip_address find_one ip netmask)"
proof (induction ip_address find_one ip netmask rule: find_network.induct)
  case (1 ip_address find_one ip netmask)
  show ?case
    apply (subst find_network.simps)
    apply (subst find_network_probes.simps)
    using 1
    apply (auto split: sum.splits option.splits)
    done
qed

text \<open>
  Claim C1 holds for IPv4 and fails for IPv6, where the code misses what its docstring
  promises for both families (\<open>return the most specific prefix in the MongoDB
  collection\<close>). The IPv4 branch searches from the host length /32 down to /0. The IPv6
  branch adds 32 to the same mask, which starts at 32, so it searches /64 down to /32
  only: with the host route /128 of an IPv6 address stored, the first lookup asks for the
  /64 and the result is \<open>None\<close>, while in the same situation the IPv4 branch returns the
  stored host route.
\<close>

theorem find_network_ipv6_host_route:
  "find_network (parses_to ''2001:db8::1'' (IPv6Address 0x20010db8000000000000000000000001))
        (find_one_in [route_at ''2001:db8::1/128'' 6]) ''2001:db8::1'' 32 = None
   \<and> hd (find_network_probes (parses_to ''2001:db8::1'' (IPv6Address 0x20010db8000000000000000000000001))
        (find_one_in [route_at ''2001:db8::1/128'' 6]) ''2001:db8::1'' 32) = ''2001:db8::/64''
   \<and> find_one_in [route_at ''2001:db8::1/128'' 6]
        (covering (IPv6Address 0x20010db8000000000000000000000001) 128)
      = Inr (Some (route_at ''2001:db8::1/128'' 6))
   \<and> find_network (parses_to ''192.0.2.77'' (IPv4Address 0xC000024D))
        (find_one_in [route_at ''192.0.2.77/32'' 4]) ''192.0.2.77'' 32
      = Some (route_at ''192.0.2.77/32'' 4)"
proof -
  let ?P = "parses_to ''2001:db8::1'' (IPv6Address 0x20010db8000000000000000000000001)"
  let ?D = "find_one_in [route_at ''2001:db8::1/128'' 6]"
  have p: "?P ''2001:db8::1'' = Inr (IPv6Address 0x20010db8000000000000000000000001)"
    by (simp add: parses_to_def)
  have c64: "covering (IPv6Address 0x20010db8000000000000000000000001) 64 = ''2001:db8::/64''"
    by (simp add: covering.simps str_network.simps hextets_def compress_hextets_def
          str_nat.simps hex_nat.simps)
  have c128: "covering (IPv6Address 0x20010db8000000000000000000000001) 128 = ''2001:db8::1/128''"
    by (simp add: covering.simps str_network.simps hextets_def compress_hextets_def
          str_nat.simps hex_nat.simps)
  have "find_network ?P ?D ''2001:db8::1'' (int 32)
        = first_hit ?D (map (covering (IPv6Address 0x20010db8000000000000000000000001))
                          (descending (32 + 32) 32))"
    using p by (rule find_network_v6) simp
  then have r: "find_network ?P ?D ''2001:db8::1'' 32 = None"
    by (simp add: descending_def upt_rec find_one_in_def route_at_def covering.simps
          str_network.simps hextets_def compress_hextets_def str_nat.simps hex_nat.simps)
  have "supernet (ip_network (IPv6Address 0x20010db8000000000000000000000001)) (32 + family_offset (IPv6Address 0x20010db8000000000000000000000001))
     = Inr (IPv6Network (0x20010db8000000000000000000000001 AND push_bit 64 (2 ^ 128 - 1)) 64)"
    by (simp add: supernet_def family_offset_def Let_def)
  then have h: "hd (find_network_probes ?P ?D ''2001:db8::1'' 32) = ''2001:db8::/64''"
    using p c64 by (subst find_network_probes_unfold) (simp add: covering.simps split: sum.splits option.splits)
  have v4: "find_network (parses_to ''192.0.2.77'' (IPv4Address 0xC000024D))
        (find_one_in [route_at ''192.0.2.77/32'' 4]) ''192.0.2.77'' 32
      = Some (route_at ''192.0.2.77/32'' 4)"
    by (subst find_network.simps)
       (simp add: parses_to_def supernet_def Let_def str_network.simps octets_def
          str_nat.simps find_one_in_def route_at_def)
  show ?thesis using r h c128 v4 by (simp add: find_one_in_def route_at_def)
qed

text \<open>
  Claim C2. \<open>find_network\<close> returns \<open>None\<close> when the input does not parse as an
  address and when any lookup it makes against the route table raises. (Its result type
  has no error value: every exception of the body is caught by the bare \<open>except\<close>.)
\<close>

theorem find_network_swallows_errors:
  assumes "(\<exists>e. ip_address ip = Inl e)
         \<or> (\<exists>q \<in> set (find_network_probes ip_address find_one ip netmask). \<exists>e. find_one q = Inl e)"
  shows "find_network ip_address find_one ip netmask = None"
  using assms
proof
  assume "\<exists>e. ip_address ip = Inl e"
  then show ?thesis by (subst find_network.simps) auto
next
  assume "\<exists>q \<in> set (find_network_probes ip_address find_one ip netmask). \<exists>e. find_one q = Inl e"
  then show ?thesis by (auto intro: probe_error_gives_None)
qed

theorem find_network_swallows_errors_witness:
  "parses_to ''192.0.2.77'' (IPv4Address 0xC000024D) ''not an address'' = Inl ValueError
   \<and> find_network (parses_to ''192.0.2.77'' (IPv4Address 0xC000024D))
        (find_one_in []) ''not an address'' 32 = None
   \<and> ''192.0.2.76/31'' \<in> set (find_network_probes (parses_to ''192.0.2.77'' (IPv4Address 0xC000024D))
        (\<lambda>q. if q = ''192.0.2.76/31'' then Inl PyMongoError else (Inr None :: error + route option))
        ''192.0.2.77'' 32)
   \<and> find_network (parses_to ''192.0.2.77'' (IPv4Address 0xC000024D))
        (\<lambda>q. if q = ''192.0.2.76/31'' then Inl PyMongoError else (Inr None :: error + route option))
        ''192.0.2.77'' 32 = None"
proof -
  let ?P = "parses_to ''192.0.2.77'' (IPv4Address 0xC000024D)"
  let ?D = "\<lambda>q. if q = ''192.0.2.76/31'' then Inl PyMongoError else (Inr None :: error + route option)"
  have a: "?P ''not an address'' = Inl ValueError"
    by (simp add: parses_to_def)
  have b: "''192.0.2.76/31'' \<in> set (find_network_probes ?P ?D ''192.0.2.77'' 32)"
    by (simp add: find_network_probes.simps parses_to_def supernet_def Let_def
          str_network.simps octets_def str_nat.simps)
  have "find_network ?P (find_one_in []) ''not an address'' 32 = None"
    using a find_network_swallows_errors [of ?P "''not an address''" "find_one_in []" 32]
    by blast
  moreover have "find_network ?P ?D ''192.0.2.77'' 32 = None"
    using b find_network_swallows_errors [of ?P "''192.0.2.77''" ?D 32]
    by (simp del: set_simps)
  ultimately show ?thesis using a b by blast
qed

text \<open>
  Claim C3. \<open>find_network\<close> terminates on every input (it is a total function, by the
  measure \<open>netmask + 33\<close>, which every recursive call decreases), its result is decided
  by the lookups it made, and it makes at most 33 of them for an IPv4 address and at most
  129 for an IPv6 address.
\<close>

theorem find_network_probe_bound:
  "find_network ip_address find_one ip netmask
     = first_hit find_one (find_network_probes ip_address find_one ip netmask)
   \<and> length (find_network_probes ip_address find_one ip netmask)
     \<le> (case ip_address ip of Inl _ \<Rightarrow> 0 | Inr a \<Rightarrow> if version a = 4 then 33 else 129)"
proof
  show "find_network ip_address find_one ip netmask
     = first_hit find_one (find_network_probes ip_address find_one ip netmask)"
    by (rule find_network_is_first_hit_of_probes)
next
  show "length (find_network_probes ip_address find_one ip netmask)
     \<le> (case ip_address ip of Inl _ \<Rightarrow> 0 | Inr a \<Rightarrow> if version a = 4 then 33 else 129)"
  proof (cases "ip_address ip")
    case (Inl e)
    then show ?thesis using probes_length [of ip_address find_one ip netmask] by simp
  next
    case (Inr a)
    then show ?thesis
      using probes_length [of ip_address find_one ip netmask]
      by (cases a) (auto simp: family_offset_def split: if_splits)
  qed
qed

theorem find_network_probe_bound_witness:
  "find_network (parses_to ''192.0.2.77'' (IPv4Address 0xC000024D)) (find_one_in []) ''192.0.2.77'' 32
     = first_hit (find_one_in [])
         (find_network_probes (parses_to ''192.0.2.77'' (IPv4Address 0xC000024D))
            (find_one_in []) ''192.0.2.77'' 32)
   \<and> length (find_network_probes (parses_to ''192.0.2.77'' (IPv4Address 0xC000024D))
         (find_one_in []) ''192.0.2.77'' 32) \<le> 33"
  using find_network_probe_bound [of "parses_to ''192.0.2.77'' (IPv4Address 0xC000024D)"
      "find_one_in []" "''192.0.2.77''" 32]
  by (simp add: parses_to_def)

section \<open>Properties of \<open>asn_name_query\<close>\<close>

text \<open>
  Claim C4. For every ASN from 64512 to 65534, \<open>asn_name_query\<close> returns the fixed
  string \<open>RFC6996 - Private Use ASN\<close>, whatever the resolver would answer, and hands
  no name to the resolver.
\<close>

theorem asn_name_query_private_use:
  assumes "64512 \<le> asn" and "asn \<le> 65534"
  shows "asn_name_query txt_query (Some asn) = Some ''RFC6996 - Private Use ASN''
         \<and> asn_name_query_lookups txt_query (Some asn) = []"
  using assms by (simp add: asn_name_query_def asn_name_query_lookups_def)

theorem asn_name_query_private_use_witness:
  "(64512::int) \<le> 64512 \<and> (64512::int) \<le> 65534
   \<and> asn_name_query (\<lambda>q. Inl DNSException) (Some 64512) = Some ''RFC6996 - Private Use ASN''
   \<and> asn_name_query_lookups (\<lambda>q. Inl DNSException) (Some 64512) = []
   \<and> asn_name_query (\<lambda>q. Inr [''\"65534 | ZZ | other | | SOME-NAME, ZZ\"'']) (Some 65534)
       = Some ''RFC6996 - Private Use ASN''
   \<and> asn_name_query_lookups (\<lambda>q. Inr [''\"65534 | ZZ | other | | SOME-NAME, ZZ\"'']) (Some 65534) = []"
  using asn_name_query_private_use [of 64512 "\<lambda>q. Inl DNSException"]
    asn_name_query_private_use [of 65534 "\<lambda>q. Inr [''\"65534 | ZZ | other | | SOME-NAME, ZZ\"'']"]
  by simp

text \<open>
  Claim C10. For an ASN outside the private-use range (after \<open>None\<close> has been replaced
  by the default ASN), when the resolver returns without raising and with no answer, the
  loop body never runs and \<open>asn_name_query\<close> falls off its end: the result is \<open>None\<close>,
  neither a name nor \<open>(DNS Error)\<close>. Exactly one name was handed to the resolver.
\<close>

theorem asn_name_query_empty_answer:
  assumes "asn = (case asn0 of None \<Rightarrow> DEFAULT_ASN | Some n \<Rightarrow> n)"
    and "\<not> (64512 \<le> asn \<and> asn \<le> 65534)"
    and "txt_query (''as'' @ str_int asn @ ''.asn.cymru.com'') = Inr []"
  shows "asn_name_query txt_query asn0 = None
         \<and> asn_name_query_lookups txt_query asn0 = [''as'' @ str_int asn @ ''.asn.cymru.com'']"
  using assms by (auto simp: asn_name_query_def asn_name_query_lookups_def Let_def)

theorem asn_name_query_empty_answer_witness:
  "(15169::int) = (case Some 15169 of None \<Rightarrow> DEFAULT_ASN | Some n \<Rightarrow> n)
   \<and> \<not> (64512 \<le> (15169::int) \<and> (15169::int) \<le> 65534)
   \<and> (\<lambda>q. if q = ''as15169.asn.cymru.com'' then Inr [] else Inl DNSException)
         (''as'' @ str_int 15169 @ ''.asn.cymru.com'') = Inr []
   \<and> asn_name_query (\<lambda>q. if q = ''as15169.asn.cymru.com'' then Inr [] else Inl DNSException)
         (Some 15169) = None
   \<and> asn_name_query (\<lambda>q. if q = ''as15169.asn.cymru.com'' then Inr [] else Inl DNSException)
         (Some 15170) = Some ''(DNS Error)''"
proof -
  let ?R = "\<lambda>q. if q = ''as15169.asn.cymru.com'' then Inr [] else (Inl DNSException :: error + string list)"
  have s: "str_int 15169 = ''15169''" "str_int 15170 = ''15170''"
    by (simp_all add: str_int_def str_nat.simps)
  have h: "?R (''as'' @ str_int 15169 @ ''.asn.cymru.com'') = Inr []"
    by (simp add: s)
  have "asn_name_query ?R (Some 15169) = None"
    using asn_name_query_empty_answer [of 15169 "Some 15169" ?R] h by simp
  moreover have "asn_name_query ?R (Some 15170) = Some ''(DNS Error)''"
    by (simp add: asn_name_query_def s)
  ultimately show ?thesis using h s by simp
qed

section \<open>Properties of \<open>avg_as_path_length\<close>\<close>

lemma fold_as_path_step:
  "fold as_path_step tbl c = c + sum_list (map distinct_as_count tbl)"
proof (induction tbl arbitrary: c)
  case Nil
  show ?case by simp
next
  case (Cons r tbl)
  have "as_path_step r c = c + distinct_as_count r"
    by (simp add: as_path_step_def distinct_as_count_def length_remdups_card_conv
          split: option.split)
  with Cons show ?case by simp
qed

lemma bit_length_bounds:
  "0 < n \<Longrightarrow> 2 ^ (bit_length n - 1) \<le> n \<and> n < 2 ^ bit_length n"
proof (induction n rule: bit_length.induct)
  case (1 n)
  show ?case
  proof (cases "n div 2 = 0")
    case True
    with "1.prems" have "n = 1" by (auto simp: div_eq_0_iff)
    then show ?thesis by (simp add: bit_length.simps)
  next
    case False
    then have pos: "0 < n div 2" by simp
    with "1.prems" "1.IH"
    have IH: "2 ^ (bit_length (n div 2) - 1) \<le> n div 2" "n div 2 < 2 ^ bit_length (n div 2)"
      by simp_all
    have bl: "bit_length n = Suc (bit_length (n div 2))"
      using "1.prems" by (subst bit_length.simps) simp
    have ge1: "1 \<le> bit_length (n div 2)"
      using pos by (subst bit_length.simps) simp
    then have "(2::nat) ^ bit_length (n div 2) = 2 * 2 ^ (bit_length (n div 2) - 1)"
      by (cases "bit_length (n div 2)") simp_all
    with IH(1) have lo: "2 ^ bit_length (n div 2) \<le> n" by linarith
    have "n < 2 * 2 ^ bit_length (n div 2)" using IH(2) by linarith
    with lo show ?thesis by (simp add: bl)
  qed
qed

lemma round_half_even_div_pos:
  assumes "0 < d" and "d < n"
  shows "0 < round_half_even_div n d"
proof -
  have "0 < n div d"
    using assms pos_imp_zdiv_pos_iff [of d n] by simp
  then show ?thesis by (simp add: round_half_even_div_def Let_def)
qed

lemma scaled_den_less_num:
  assumes a: "2 ^ (A - 1) \<le> a" and b: "0 < b" "b < 2 ^ B" and A: "1 \<le> A"
    and e: "e \<le> int A - int B - 52"
  shows "0 < scaled_den b e \<and> scaled_den b e < scaled_num a e"
proof (cases "e \<le> 0")
  case True
  have "B \<le> (A - 1) + nat (- e)" using e A by linarith
  then have "(2::int) ^ B \<le> 2 ^ ((A - 1) + nat (- e))"
    by (intro power_increasing) simp_all
  also have "\<dots> = 2 ^ (A - 1) * 2 ^ nat (- e)" by (simp add: power_add)
  also have "\<dots> \<le> a * 2 ^ nat (- e)" using a by (intro mult_right_mono) simp_all
  finally show ?thesis using b True by (simp add: scaled_num_def scaled_den_def)
next
  case False
  then have "B + nat e \<le> A - 1" using e A by linarith
  then have le: "(2::int) ^ (B + nat e) \<le> 2 ^ (A - 1)"
    by (intro power_increasing) simp_all
  have "b * 2 ^ nat e < 2 ^ B * 2 ^ nat e" using b by (intro mult_strict_right_mono) simp_all
  also have "\<dots> = 2 ^ (B + nat e)" by (simp add: power_add)
  finally have "b * 2 ^ nat e < a" using le a by linarith
  then show ?thesis using b False by (simp add: scaled_num_def scaled_den_def)
qed

lemma fl_ratio_mantissa_pos:
  assumes "0 < a" and "0 < b"
  shows "\<exists>m e. fl_ratio a b = Float m e \<and> 0 < m"
proof -
  define A where "A = bit_length (nat a)"
  define B where "B = bit_length (nat b)"
  have "2 ^ (A - 1) \<le> nat a" "nat b < 2 ^ B"
    using bit_length_bounds [of "nat a"] bit_length_bounds [of "nat b"] assms
    by (simp_all add: A_def B_def)
  then have a: "2 ^ (A - 1) \<le> a" and b: "b < 2 ^ B"
    using assms by (simp_all add: nat_le_iff nat_less_iff)
  have A: "1 \<le> A"
    using assms(1) unfolding A_def by (subst bit_length.simps) simp
  define e0 where "e0 = int A - int B - 53"
  define e where "e = (if scaled_num a e0 \<ge> 2 ^ 53 * scaled_den b e0 then e0 + 1 else e0)"
  have "e \<le> int A - int B - 52" by (simp add: e_def e0_def)
  with a assms(2) b A have "0 < scaled_den b e \<and> scaled_den b e < scaled_num a e"
    by (intro scaled_den_less_num) simp_all
  then have "0 < round_half_even_div (scaled_num a e) (scaled_den b e)"
    by (intro round_half_even_div_pos) simp_all
  moreover have "fl_ratio a b = Float (round_half_even_div (scaled_num a e) (scaled_den b e)) e"
    using assms(1) by (simp add: fl_ratio_def Let_def e_def e0_def A_def B_def)
  ultimately show ?thesis by blast
qed

lemma float_truediv_by_count:
  assumes "0 < n"
  shows "\<exists>q. float_truediv x (float_of_int n) = Inr q"
proof -
  obtain m e where "float_of_int n = Float m e" "0 < m"
    using fl_ratio_mantissa_pos [of n 1] assms by (auto simp: float_of_int_def)
  then show ?thesis by (cases x) simp
qed

lemma avg_as_path_length_nonempty:
  assumes "tbl \<noteq> []"
  shows "\<exists>x. avg_as_path_length tbl = Inr x"
proof -
  from assms have "0 < int (length tbl)" by simp
  then obtain q where "float_truediv (float_of_int (fold as_path_step tbl 0))
             (float_of_int (int (length tbl))) = Inr q"
    using float_truediv_by_count by blast
  then show ?thesis by (simp add: avg_as_path_length_def)
qed

lemma avg_as_path_length_empty: "avg_as_path_length [] = Inl ZeroDivisionError"
  by (simp add: avg_as_path_length_def float_of_int_def fl_ratio_def)

lemmas fl_eval = float_of_int_def fl_ratio_def bit_length.simps scaled_num_def scaled_den_def
  round_half_even_div_def Let_def

lemma avg_as_path_length_example:
  assumes "as_path r = Some [100, 100, 200]"
  shows "avg_as_path_length [r] = Inr (Float 4503599627370496 (- 51))"
proof -
  have "fold as_path_step [r] 0 = 2"
    using assms by (simp add: as_path_step_def)
  moreover have "float_of_int 2 = Float 4503599627370496 (- 51)"
    "float_of_int 1 = Float 4503599627370496 (- 52)"
    by (simp_all add: fl_eval)
  moreover have "float_truediv (Float 4503599627370496 (- 51)) (Float 4503599627370496 (- 52))
      = Inr (Float 4503599627370496 (- 51))"
    by (simp add: fl_eval)
  moreover have "round3 (Float 4503599627370496 (- 51)) = Float 4503599627370496 (- 51)"
    by (simp add: fl_eval)
  ultimately show ?thesis by (simp add: avg_as_path_length_def)
qed

text \<open>
  Claim C5 as stated fails on the empty table: there is no average, the division raises
  \<open>ZeroDivisionError\<close>.
\<close>

theorem avg_as_path_length_empty_counterexample:
  "avg_as_path_length [] = Inl ZeroDivisionError"
  by (rule avg_as_path_length_empty)

text \<open>
  Claim C5, as amended. For every non-empty table, \<open>avg_as_path_length\<close> is the sum over
  all entries of the number of distinct AS numbers of the entry's \<open>as_path\<close> (0 for an
  entry without one), divided as a float by the number of entries, and rounded by
  \<open>round(x, 3)\<close>. A table of one entry with \<open>as_path = [100, 100, 200]\<close> gives 2.0.
\<close>

theorem avg_as_path_length_value:
  "(tbl \<noteq> [] \<longrightarrow>
      (\<exists>q. float_truediv (float_of_int (sum_list (map distinct_as_count tbl)))
               (float_of_int (int (length tbl))) = Inr q
            \<and> avg_as_path_length tbl = Inr (round3 q)))
   \<and> (as_path r = Some [100, 100, 200] \<longrightarrow>
      (\<exists>x. avg_as_path_length [r] = Inr x \<and> float_val x = 2))"
proof (intro conjI impI)
  assume "tbl \<noteq> []"
  then have "0 < int (length tbl)" by simp
  then obtain q where q: "float_truediv (float_of_int (sum_list (map distinct_as_count tbl)))
               (float_of_int (int (length tbl))) = Inr q"
    using float_truediv_by_count by blast
  then have "avg_as_path_length tbl = Inr (round3 q)"
    by (simp add: avg_as_path_length_def fold_as_path_step)
  with q show "\<exists>q. float_truediv (float_of_int (sum_list (map distinct_as_count tbl)))
               (float_of_int (int (length tbl))) = Inr q
            \<and> avg_as_path_length tbl = Inr (round3 q)"
    by blast
next
  assume "as_path r = Some [100, 100, 200]"
  then have "avg_as_path_length [r] = Inr (Float 4503599627370496 (- 51))"
    by (rule avg_as_path_length_example)
  moreover have "float_val (Float 4503599627370496 (- 51)) = 2"
    by (simp add: pow2_def)
  ultimately show "\<exists>x. avg_as_path_length [r] = Inr x \<and> float_val x = 2" by blast
qed

theorem avg_as_path_length_value_witness:
  "[route_at ''192.0.2.0/24'' 4, (route_at ''198.51.100.0/24'' 4)\<lparr>as_path := None\<rparr>,
      (route_at ''203.0.113.0/24'' 4)\<lparr>as_path := Some [100, 100, 200]\<rparr>] \<noteq> []
   \<and> as_path ((route_at ''203.0.113.0/24'' 4)\<lparr>as_path := Some [100, 100, 200]\<rparr>)
       = Some [100, 100, 200]
   \<and> sum_list (map distinct_as_count
        [route_at ''192.0.2.0/24'' 4, (route_at ''198.51.100.0/24'' 4)\<lparr>as_path := None\<rparr>,
         (route_at ''203.0.113.0/24'' 4)\<lparr>as_path := Some [100, 100, 200]\<rparr>]) = 4
   \<and> (\<exists>q. float_truediv (float_of_int 4) (float_of_int 3) = Inr q
          \<and> avg_as_path_length
               [route_at ''192.0.2.0/24'' 4, (route_at ''198.51.100.0/24'' 4)\<lparr>as_path := None\<rparr>,
                (route_at ''203.0.113.0/24'' 4)\<lparr>as_path := Some [100, 100, 200]\<rparr>]
             = Inr (round3 q))
   \<and> (\<exists>x. avg_as_path_length [(route_at ''203.0.113.0/24'' 4)\<lparr>as_path := Some [100, 100, 200]\<rparr>]
            = Inr x \<and> float_val x = 2)"
proof -
  let ?r = "(route_at ''203.0.113.0/24'' 4)\<lparr>as_path := Some [100, 100, 200]\<rparr>"
  let ?tbl = "[route_at ''192.0.2.0/24'' 4, (route_at ''198.51.100.0/24'' 4)\<lparr>as_path := None\<rparr>, ?r]"
  have s: "sum_list (map distinct_as_count ?tbl) = 4"
    by (simp add: distinct_as_count_def route_at_def)
  have p: "as_path ?r = Some [100, 100, 200]" by simp
  show ?thesis
    using avg_as_path_length_value [of ?tbl ?r] s p by simp
qed

text \<open>
  Claim C9. \<open>avg_as_path_length\<close> divides without a guard: the \<open>try\<close> around the body
  of the loop makes an entry without \<open>as_path\<close> add nothing, but the division is outside
  it, and on the empty table it raises \<open>ZeroDivisionError\<close>. The function returns a value
  exactly when the table is not empty.
\<close>

theorem avg_as_path_length_needs_entries:
  "(avg_as_path_length tbl = Inl ZeroDivisionError \<longleftrightarrow> tbl = [])
   \<and> ((\<exists>x. avg_as_path_length tbl = Inr x) \<longleftrightarrow> tbl \<noteq> [])
   \<and> (as_path r = None \<longrightarrow> as_path_step r c = c)"
proof -
  have ne: "\<exists>x. avg_as_path_length tbl = Inr x" if "tbl \<noteq> []"
    using that by (rule avg_as_path_length_nonempty)
  have "avg_as_path_length tbl = Inl ZeroDivisionError \<longleftrightarrow> tbl = []"
    using ne avg_as_path_length_empty by (cases "tbl = []") auto
  moreover have "(\<exists>x. avg_as_path_length tbl = Inr x) \<longleftrightarrow> tbl \<noteq> []"
    using ne avg_as_path_length_empty by (cases "tbl = []") auto
  moreover have "as_path r = None \<longrightarrow> as_path_step r c = c"
    by (simp add: as_path_step_def)
  ultimately show ?thesis by blast
qed

theorem avg_as_path_length_needs_entries_witness:
  "avg_as_path_length [] = Inl ZeroDivisionError
   \<and> (\<exists>x. avg_as_path_length [(route_at ''198.51.100.0/24'' 4)\<lparr>as_path := None\<rparr>] = Inr x)
   \<and> as_path_step ((route_at ''198.51.100.0/24'' 4)\<lparr>as_path := None\<rparr>) 7 = 7"
  using avg_as_path_length_needs_entries [of "[]" "(route_at ''198.51.100.0/24'' 4)\<lparr>as_path := None\<rparr>" 7]
    avg_as_path_length_needs_entries [of "[(route_at ''198.51.100.0/24'' 4)\<lparr>as_path := None\<rparr>]"
      "(route_at ''198.51.100.0/24'' 4)\<lparr>as_path := None\<rparr>" 7]
  by simp

section \<open>Properties of \<open>communities_count\<close>\<close>
















section \<open>Properties of the refresh tasks\<close>

lemma update_stats_result:
  "update_stats w now self =
     (self\<lparr>peer_counter := peer_count (w_table w),
           ipv4_table_size := prefix_count (w_table w) 4,
           ipv6_table_size := prefix_count (w_table w) 6,
           nexthop_ip_counter := nexthop_ip_count (w_table w),
           timestamp_attr := epoch_to_date (w_tzname w) now,
           customer_count := int (length (fst (customers w))),
           customer_ipv4_prefixes := fst (snd (customers w)),
           customer_ipv6_prefixes := snd (snd (customers w))\<rparr>, None)"
  by (simp add: update_stats_def update_stats_steps_def)

lemma update_advanced_stats_result:
  "update_advanced_stats w now self =
     (case avg_as_path_length (w_table w) of
        Inl e \<Rightarrow> (self, Some e)
      | Inr v \<Rightarrow>
          (case cidr_breakdown w of
             Inl e \<Rightarrow> (self\<lparr>avg_as_path_length_attr := JFloat v,
                              top_n_peers := JList (top_peers w 5)\<rparr>, Some e)
           | Inr json_data \<Rightarrow>
               (self\<lparr>avg_as_path_length_attr := JFloat v,
                      top_n_peers := JList (top_peers w 5),
                      cidr_breakdown_attr := JList json_data,
                      peers_attr := JList (peers w),
                      customers_attr := JList (fst (customers w)),
                      communities_attr := JList (communities_json w),
                      timestamp_attr := epoch_to_date (w_tzname w) now\<rparr>, None)))"
  by (simp add: update_advanced_stats_def update_advanced_stats_steps_def
        split: sum.splits)


lemma get_data_timestamp:
  "get_data a = get_data b \<Longrightarrow> timestamp_attr a = timestamp_attr b"
  by (simp add: get_data_def)

lemma civil_example: "civil_from_days 17471 = (2017, 11, 1)"
  unfolding civil_from_days_def Let_def by simp

lemma pad_example:
  "str_int 2017 = ''2017''" "pad2 11 = ''11''" "pad2 1 = ''01''" "pad2 0 = ''00''"
  "pad2 5 = ''05''"
  by (simp_all add: pad2_def str_int_def str_nat.simps)

lemma epoch_example:
  "epoch_to_date ''GMT'' 1509494400 = ''2017-11-01 00:00:00 GMT''"
  "epoch_to_date ''GMT'' 1509494405 = ''2017-11-01 00:00:05 GMT''"
  unfolding epoch_to_date_def Let_def by (simp_all add: civil_example pad_example)

text \<open>
  Claim C7 as stated fails: \<open>update_stats\<close> stores the time of the run in \<open>timestamp\<close>,
  so two runs five seconds apart over the same table publish different snapshots.
\<close>

theorem update_stats_twice_counterexample:
  "get_data (fst (update_stats (example_world [route_at ''192.0.2.0/24'' 4]) 1509494405
       (fst (update_stats (example_world [route_at ''192.0.2.0/24'' 4]) 1509494400
          (Stats_init (example_world [route_at ''192.0.2.0/24'' 4]) 1509494400)))))
   \<noteq> get_data (fst (update_stats (example_world [route_at ''192.0.2.0/24'' 4]) 1509494400
          (Stats_init (example_world [route_at ''192.0.2.0/24'' 4]) 1509494400)))"
proof
  let ?w = "example_world [route_at ''192.0.2.0/24'' 4]"
  let ?s1 = "fst (update_stats ?w 1509494400 (Stats_init ?w 1509494400))"
  assume "get_data (fst (update_stats ?w 1509494405 ?s1)) = get_data ?s1"
  then have "timestamp_attr (fst (update_stats ?w 1509494405 ?s1)) = timestamp_attr ?s1"
    by (rule get_data_timestamp)
  then have "epoch_to_date ''GMT'' 1509494405 = epoch_to_date ''GMT'' 1509494400"
    by (simp add: update_stats_result example_world_def)
  then show False by (simp add: epoch_example)
qed

text \<open>
  Claim C7, as amended. Running the same refresh task twice in a row over an unchanged
  route table, with unchanged answers of the name service, publishes a snapshot that is
  identical in every field except \<open>timestamp\<close>, which holds the time of the second run:
  the second run of \<open>update_stats\<close> changes nothing but \<open>timestamp\<close>, and its output
  equals that of the first run exactly when both times are formatted alike; the second
  run of \<open>update_advanced_stats\<close> changes nothing but \<open>timestamp\<close>, and nothing at all
  when the task ends with an exception (which it then does both times).
\<close>

theorem refresh_twice:
  "update_stats w t2 (fst (update_stats w t1 self))
     = ((fst (update_stats w t1 self))\<lparr>timestamp_attr := epoch_to_date (w_tzname w) t2\<rparr>, None)
   \<and> (get_data (fst (update_stats w t2 (fst (update_stats w t1 self))))
        = get_data (fst (update_stats w t1 self))
      \<longleftrightarrow> epoch_to_date (w_tzname w) t2 = epoch_to_date (w_tzname w) t1)
   \<and> update_advanced_stats w t2 (fst (update_advanced_stats w t1 self))
     = (if snd (update_advanced_stats w t1 self) = None
        then (fst (update_advanced_stats w t1 self))\<lparr>timestamp_attr := epoch_to_date (w_tzname w) t2\<rparr>
        else fst (update_advanced_stats w t1 self),
        snd (update_advanced_stats w t1 self))"
proof (intro conjI)
  show "update_stats w t2 (fst (update_stats w t1 self))
     = ((fst (update_stats w t1 self))\<lparr>timestamp_attr := epoch_to_date (w_tzname w) t2\<rparr>, None)"
    by (simp add: update_stats_result)
  show "get_data (fst (update_stats w t2 (fst (update_stats w t1 self))))
        = get_data (fst (update_stats w t1 self))
      \<longleftrightarrow> epoch_to_date (w_tzname w) t2 = epoch_to_date (w_tzname w) t1"
    by (simp add: update_stats_result get_data_def)
  show "update_advanced_stats w t2 (fst (update_advanced_stats w t1 self))
     = (if snd (update_advanced_stats w t1 self) = None
        then (fst (update_advanced_stats w t1 self))\<lparr>timestamp_attr := epoch_to_date (w_tzname w) t2\<rparr>
        else fst (update_advanced_stats w t1 self),
        snd (update_advanced_stats w t1 self))"
    by (simp add: update_advanced_stats_result split: sum.splits)
qed

theorem refresh_twice_witness:
  "update_stats (example_world [route_at ''192.0.2.0/24'' 4]) 1509494405
       (fst (update_stats (example_world [route_at ''192.0.2.0/24'' 4]) 1509494400
          (Stats_init (example_world [route_at ''192.0.2.0/24'' 4]) 1509494400)))
   = ((fst (update_stats (example_world [route_at ''192.0.2.0/24'' 4]) 1509494400
          (Stats_init (example_world [route_at ''192.0.2.0/24'' 4]) 1509494400)))
        \<lparr>timestamp_attr := ''2017-11-01 00:00:05 GMT''\<rparr>, None)"
  using refresh_twice [of "example_world [route_at ''192.0.2.0/24'' 4]" 1509494405 1509494400
      "Stats_init (example_world [route_at ''192.0.2.0/24'' 4]) 1509494400"]
    epoch_example(2)
  by (simp add: example_world_def)




end
